theory Spec2Isabelle
  imports Main
begin

section \<open>Data model of streamlit\_app.py\<close>

text \<open>
  The program is a Streamlit script: \<open>main\<close> is executed from top to bottom once per
  user interaction, and \<open>st.session_state\<close> is the only data that survives from one
  execution to the next. The vector store, the directory loader, the embedding service
  and the chat model are external; each run sees them through the record \<open>env\<close> of
  their answers, every one of which may be an exception. Logging, the print of
  \<open>inspect\<close>, the layout of the page and the wording of the prompt template change
  neither the session state nor the calls that are made, and are left out.
\<close>

text \<open>A chat message is the dict \<^verbatim>\<open>{"role": ..., "content": ...}\<close>.\<close>

record chat_message =
  role :: string
  content :: string

text \<open>A langchain \<open>Document\<close>: text and a metadata dict (kept in insertion order).\<close>

record Document =
  page_content :: string
  metadata :: "(string \<times> string) list"

text \<open>A \<open>Chroma\<close> handle: the collection it names and the embedding model it was built with.\<close>

record Chroma =
  collection_name :: string
  embedding :: string

text \<open>
  The exceptions a run can meet: two of Python's own and those of the libraries.
  \<open>str_exn\<close> is \<^verbatim>\<open>str(e)\<close>, the text that \<^verbatim>\<open>st.error(e)\<close> shows: the key of a
  \<^verbatim>\<open>KeyError\<close> in quotes, and for an unbound local variable the sentence of Python 3.11.
\<close>

datatype exn =
    KeyError string
  | UnboundLocalError string
  | LibraryError string

fun str_exn :: "exn \<Rightarrow> string" where
  "str_exn (KeyError k) = CHR 0x27 # k @ [CHR 0x27]"
| "str_exn (UnboundLocalError v) =
     ''cannot access local variable '' @ CHR 0x27 # v @ CHR 0x27 #
     '' where it is not associated with a value''"
| "str_exn (LibraryError m) = m"

text \<open>
  \<open>st.session_state\<close>, restricted to the keys the script reads or writes. A field is
  \<open>None\<close> when the key is absent; the key \<^verbatim>\<open>vector_db\<close> can be present with the
  value \<^verbatim>\<open>None\<close>, which is \<open>Some None\<close>.
\<close>

record session_state =
  messages :: "chat_message list option"
  vector_db :: "Chroma option option"
  use_sample :: "bool option"
  pdf_pages :: "string option"
  file_upload :: "string option"

text \<open>What the script puts on the page.\<close>

datatype ui_event =
    StError string
  | StWarning string
  | StSuccess string
  | StMarkdown string

text \<open>
  The calls to the vector store and to the chat model. The only prompt that is sent is
  the answering template filled with the retrieved context and the question;
  \<open>QueryPrompt\<close> is the paraphrasing template \<^verbatim>\<open>QUERY_PROMPT\<close>, which the script builds
  and which only the commented-out \<^verbatim>\<open>MultiQueryRetriever\<close> would send.
\<close>

datatype prompt =
    QueryPrompt string
  | RagPrompt "Document list" string

datatype call =
    FromDocuments "Document list" string string
  | DeleteCollection Chroma
  | SimilarityQuery Chroma string nat
  | ChatGenerate string prompt

text \<open>
  The world of one session: its session state, the collections of the vector store
  (name to stored chunks), the log of store and model calls with whether each returned
  normally, and the page output.
\<close>

record world =
  session :: session_state
  store :: "string \<rightharpoonup> Document list"
  calls :: "(call \<times> bool) list"
  ui :: "ui_event list"

text \<open>
  The answers of the outside world during one run: \<^verbatim>\<open>os.listdir\<close>, \<^verbatim>\<open>ollama.list()\<close>
  (the descriptors under its key \<^verbatim>\<open>models\<close>), the files a directory glob matches, the
  markdown loader on one file, \<^verbatim>\<open>MarkdownHeaderTextSplitter.split_text\<close> for a header
  table, and whether embedding, deleting, retrieving and generating fail.
\<close>

record env =
  listdir :: "string \<Rightarrow> exn + string list"
  ollama_list :: "exn + (string \<times> string) list list"
  glob_files :: "string \<Rightarrow> string \<Rightarrow> exn + string list"
  load_file :: "string \<Rightarrow> exn + Document list"
  split_text :: "(string \<times> string) list \<Rightarrow> string \<Rightarrow> Document list"
  embed_failure :: "string \<Rightarrow> Document list \<Rightarrow> exn option"
  delete_failure :: "Chroma \<Rightarrow> exn option"
  retrieve :: "Chroma \<Rightarrow> string \<Rightarrow> nat \<Rightarrow> exn + Document list"
  chat :: "string \<Rightarrow> prompt \<Rightarrow> exn + string"

text \<open>The widgets of one run: the three select boxes, the button and the chat input.\<close>

record inputs =
  model_select :: string
  korpus_select :: string
  embedding_select :: string
  delete_button :: bool
  chat_input :: "string option"

text \<open>
  How a block of the script ends: it falls through, \<^verbatim>\<open>st.rerun()\<close> stops the run and
  asks for a new one, or an exception leaves \<open>main\<close>.
\<close>

datatype outcome = Completed | Rerun | Raised exn

fun and_then :: "world \<times> outcome \<Rightarrow> (world \<Rightarrow> world \<times> outcome) \<Rightarrow> world \<times> outcome" where
  "and_then (w, Completed) f = f w"
| "and_then (w, Rerun) f = (w, Rerun)"
| "and_then (w, Raised e) f = (w, Raised e)"

section \<open>The functions of the script\<close>

subsection \<open>extract\_model\_names\<close>

fun extract_model_names :: "(string \<times> string) list list \<Rightarrow> exn + string list" where
  "extract_model_names [] = Inr []"
| "extract_model_names (model # models) =
     (case map_of model ''name'' of
        None \<Rightarrow> Inl (KeyError ''name'')
      | Some n \<Rightarrow>
          (case extract_model_names models of
             Inl e \<Rightarrow> Inl e
           | Inr ns \<Rightarrow> Inr (n # ns)))"

subsection \<open>process\_question\<close>

text \<open>
  The chain is retriever, prompt, model, parser, invoked once: a similarity search with
  \<open>k = 3\<close> on the question as typed, then one generation with the filled template. An
  exception of either step leaves the chain at that step. The result is the log of
  the calls made and the response or the exception.
\<close>

definition process_question ::
  "env \<Rightarrow> string \<Rightarrow> Chroma \<Rightarrow> string \<Rightarrow> (call \<times> bool) list \<times> (exn + string)" where
  "process_question ev question vdb selected_model =
     (case retrieve ev vdb question 3 of
        Inl e \<Rightarrow> ([(SimilarityQuery vdb question 3, False)], Inl e)
      | Inr context \<Rightarrow>
          (case chat ev selected_model (RagPrompt context question) of
             Inl e \<Rightarrow>
               ([(SimilarityQuery vdb question 3, True),
                 (ChatGenerate selected_model (RagPrompt context question), False)], Inl e)
           | Inr response \<Rightarrow>
               ([(SimilarityQuery vdb question 3, True),
                 (ChatGenerate selected_model (RagPrompt context question), True)],
                Inr response)))"

subsection \<open>delete\_vector\_db\<close>

text \<open>
  With a handle: the collection is deleted, the keys \<^verbatim>\<open>pdf_pages\<close>, \<^verbatim>\<open>file_upload\<close>
  and \<^verbatim>\<open>vector_db\<close> are popped, a success message is shown and \<^verbatim>\<open>st.rerun()\<close> ends
  the run. Without one: an error message and nothing else. A failing
  \<^verbatim>\<open>delete_collection\<close> leaves before the first pop.
\<close>

definition delete_vector_db :: "env \<Rightarrow> Chroma option \<Rightarrow> world \<Rightarrow> world \<times> outcome" where
  "delete_vector_db ev vdb w =
     (case vdb of
        Some h \<Rightarrow>
          (case delete_failure ev h of
             Some e \<Rightarrow> (w\<lparr>calls := calls w @ [(DeleteCollection h, False)]\<rparr>, Raised e)
           | None \<Rightarrow>
               (w\<lparr>store := (store w)(collection_name h := None),
                  session := (session w)\<lparr>pdf_pages := None, file_upload := None,
                                         vector_db := None\<rparr>,
                  calls := calls w @ [(DeleteCollection h, True)],
                  ui := ui w @ [StSuccess ''Collection and temporary files deleted successfully.'']\<rparr>,
                Rerun))
      | None \<Rightarrow>
          (w\<lparr>ui := ui w @ [StError ''No vector database found to delete.'']\<rparr>, Completed))"

subsection \<open>load\_documents\<close>

text \<open>
  \<^verbatim>\<open>DirectoryLoader(path, glob="./*.md", loader_cls=UnstructuredMarkdownLoader).load()\<close>:
  every file the glob matches is loaded in turn and the documents are collected; the
  first exception ends the load.
\<close>

fun load_files :: "env \<Rightarrow> string list \<Rightarrow> exn + Document list" where
  "load_files ev [] = Inr []"
| "load_files ev (f # fs) =
     (case load_file ev f of
        Inl e \<Rightarrow> Inl e
      | Inr ds \<Rightarrow>
          (case load_files ev fs of
             Inl e \<Rightarrow> Inl e
           | Inr rest \<Rightarrow> Inr (ds @ rest)))"

definition load_documents :: "env \<Rightarrow> string \<Rightarrow> exn + Document list" where
  "load_documents ev path =
     (case glob_files ev path ''./*.md'' of
        Inl e \<Rightarrow> Inl e
      | Inr fs \<Rightarrow> load_files ev fs)"

subsection \<open>split\_documents\<close>

definition headers_to_split_on :: "(string \<times> string) list" where
  "headers_to_split_on =
     [(''#'', ''Header 1''), (''##'', ''Header 2''),
      (''###'', ''Header 3''), (''####'', ''Header 4'')]"

text \<open>The loop over \<open>docs\<close>, extending \<open>all_sections\<close> by the sections of each.\<close>

fun split_loop ::
  "(string \<Rightarrow> Document list) \<Rightarrow> Document list \<Rightarrow> Document list \<Rightarrow> Document list" where
  "split_loop text_splitter [] all_sections = all_sections"
| "split_loop text_splitter (doc # docs) all_sections =
     split_loop text_splitter docs (all_sections @ text_splitter (page_content doc))"

definition split_documents ::
  "((string \<times> string) list \<Rightarrow> string \<Rightarrow> Document list) \<Rightarrow> Document list \<Rightarrow> Document list" where
  "split_documents splitter docs = split_loop (splitter headers_to_split_on) docs []"

subsection \<open>Chroma.from\_documents\<close>

text \<open>
  The collection of the given name is created when the store does not have it; then
  the chunks are embedded and added to it. A failing embedding returns no handle and
  leaves the collection as it was on creation, with none of the chunks.
\<close>

definition from_documents ::
  "env \<Rightarrow> Document list \<Rightarrow> string \<Rightarrow> string \<Rightarrow> (string \<rightharpoonup> Document list)
     \<Rightarrow> (string \<rightharpoonup> Document list) \<times> (exn + Chroma)" where
  "from_documents ev chunks embedding_model name st =
     (let old = (case st name of None \<Rightarrow> [] | Some ds \<Rightarrow> ds) in
      case embed_failure ev embedding_model chunks of
        Some e \<Rightarrow> (st(name \<mapsto> old), Inl e)
      | None \<Rightarrow>
          (st(name \<mapsto> old @ chunks),
           Inr \<lparr>collection_name = name, embedding = embedding_model\<rparr>))"

subsection \<open>main\<close>

definition korpora_path :: string where
  "korpora_path = ''/data/ub-llm/korpora/''"

text \<open>Lines 225 to 230: the three keys are created when they are missing.\<close>

definition init_session_state :: "session_state \<Rightarrow> session_state" where
  "init_session_state s =
     (let s1 = (if messages s = None then s\<lparr>messages := Some []\<rparr> else s);
          s2 = (if vector_db s1 = None then s1\<lparr>vector_db := Some None\<rparr> else s1)
      in (if use_sample s2 = None then s2\<lparr>use_sample := Some False\<rparr> else s2))"

text \<open>
  Lines 233 to 252: each of the three variables is assigned only when its list of
  options is not empty; it is unbound otherwise.
\<close>

definition selected_model :: "string list \<Rightarrow> inputs \<Rightarrow> string option" where
  "selected_model available_models inp =
     (if available_models \<noteq> [] then Some (model_select inp) else None)"

definition selected_korpus :: "string list \<Rightarrow> inputs \<Rightarrow> string option" where
  "selected_korpus korpora_list inp =
     (if korpora_list \<noteq> [] then Some (korpus_select inp) else None)"

definition selected_embedding_model :: "string list \<Rightarrow> inputs \<Rightarrow> string option" where
  "selected_embedding_model available_models inp =
     (if available_models \<noteq> [] then Some (embedding_select inp) else None)"

text \<open>
  Lines 259 to 277: with no index in the session the corpus is loaded, and when it has
  documents they are split and indexed under the collection name \<^verbatim>\<open>myRAG\<close>; an empty
  corpus is reported on the page. With an index the block does nothing.
\<close>

definition build_index ::
  "env \<Rightarrow> inputs \<Rightarrow> string list \<Rightarrow> string list \<Rightarrow> world \<Rightarrow> world \<times> outcome" where
  "build_index ev inp korpora_list available_models w =
     (case vector_db (session w) of
        None \<Rightarrow> (w, Raised (KeyError ''vector_db''))
      | Some (Some h) \<Rightarrow> (w, Completed)
      | Some None \<Rightarrow>
          (case selected_korpus korpora_list inp of
             None \<Rightarrow> (w, Raised (UnboundLocalError ''selected_korpus''))
           | Some k \<Rightarrow>
               (case load_documents ev (korpora_path @ k) of
                  Inl e \<Rightarrow> (w, Raised e)
                | Inr docs \<Rightarrow>
                    if docs \<noteq> [] then
                      (if vector_db (session w) = Some None then
                         (let chunks = split_documents (split_text ev) docs in
                          case selected_embedding_model available_models inp of
                            None \<Rightarrow> (w, Raised (UnboundLocalError ''selected_embedding_model''))
                          | Some em \<Rightarrow>
                              (case from_documents ev chunks em ''myRAG'' (store w) of
                                 (st, Inl e) \<Rightarrow>
                                   (w\<lparr>store := st,
                                      calls := calls w @
                                         [(FromDocuments chunks em ''myRAG'', False)]\<rparr>,
                                    Raised e)
                               | (st, Inr h) \<Rightarrow>
                                   (w\<lparr>session := (session w)\<lparr>vector_db := Some (Some h)\<rparr>,
                                      store := st,
                                      calls := calls w @
                                         [(FromDocuments chunks em ''myRAG'', True)]\<rparr>,
                                    Completed)))
                       else (w, Completed))
                    else (w\<lparr>ui := ui w @ [StError ''No website data found.'']\<rparr>,
                          Completed))))"

text \<open>Lines 284 to 291: the button \<^verbatim>\<open>Reload data\<close>.\<close>

definition delete_block :: "env \<Rightarrow> inputs \<Rightarrow> world \<Rightarrow> world \<times> outcome" where
  "delete_block ev inp w =
     (if delete_button inp then
        (case vector_db (session w) of
           None \<Rightarrow> (w, Raised (KeyError ''vector_db''))
         | Some vdb \<Rightarrow> delete_vector_db ev vdb w)
      else (w, Completed))"

text \<open>Lines 298 to 301: the transcript is shown.\<close>

definition show_history :: "world \<Rightarrow> world \<times> outcome" where
  "show_history w =
     (case messages (session w) of
        None \<Rightarrow> (w, Raised (KeyError ''messages''))
      | Some ms \<Rightarrow> (w\<lparr>ui := ui w @ map (\<lambda>m. StMarkdown (content m)) ms\<rparr>, Completed))"

text \<open>
  Lines 306 to 326, the body of the \<^verbatim>\<open>try\<close>: the user message is appended and shown,
  then, with an index, the question is processed, the response shown and appended as
  the assistant message; with no index a warning is shown. Nothing writes the key
  \<^verbatim>\<open>vector_db\<close> between the tests of lines 314 and 323, so both read the same value.
  The result is the world where the body stopped and the exception that stopped it,
  if any.
\<close>

definition chat_try :: "env \<Rightarrow> string \<Rightarrow> string option \<Rightarrow> world \<Rightarrow> world \<times> exn option" where
  "chat_try ev prompt sel_model w =
     (case messages (session w) of
        None \<Rightarrow> (w, Some (KeyError ''messages''))
      | Some ms \<Rightarrow>
          (let w1 = w\<lparr>session := (session w)\<lparr>messages :=
                          Some (ms @ [\<lparr>role = ''user'', content = prompt\<rparr>])\<rparr>,
                      ui := ui w @ [StMarkdown prompt]\<rparr>
           in case vector_db (session w1) of
                None \<Rightarrow> (w1, Some (KeyError ''vector_db''))
              | Some None \<Rightarrow>
                  (w1\<lparr>ui := ui w1 @ [StWarning ''Please upload a PDF file first.'']\<rparr>, None)
              | Some (Some h) \<Rightarrow>
                  (case sel_model of
                     None \<Rightarrow> (w1, Some (UnboundLocalError ''selected_model''))
                   | Some m \<Rightarrow>
                       (case process_question ev prompt h m of
                          (cs, Inl e) \<Rightarrow> (w1\<lparr>calls := calls w1 @ cs\<rparr>, Some e)
                        | (cs, Inr response) \<Rightarrow>
                            (w1\<lparr>session := (session w1)\<lparr>messages :=
                                   Some (ms @ [\<lparr>role = ''user'', content = prompt\<rparr>,
                                               \<lparr>role = ''assistant'', content = response\<rparr>])\<rparr>,
                                calls := calls w1 @ cs,
                                ui := ui w1 @ [StMarkdown response]\<rparr>,
                             None)))))"

text \<open>
  Lines 304 to 333: a non-empty chat input runs the body above, and the handler shows
  any exception; with no input and no index a hint is shown.
\<close>

definition chat_idle :: "world \<Rightarrow> world \<times> outcome" where
  "chat_idle w =
     (case vector_db (session w) of
        None \<Rightarrow> (w, Raised (KeyError ''vector_db''))
      | Some None \<Rightarrow>
          (w\<lparr>ui := ui w @
               [StWarning ''Upload a PDF file or use the sample PDF to begin chat...'']\<rparr>,
           Completed)
      | Some (Some h) \<Rightarrow> (w, Completed))"

definition chat_block :: "env \<Rightarrow> inputs \<Rightarrow> string list \<Rightarrow> world \<Rightarrow> world \<times> outcome" where
  "chat_block ev inp available_models w =
     (case chat_input inp of
        None \<Rightarrow> chat_idle w
      | Some prompt \<Rightarrow>
          if prompt \<noteq> [] then
            (case chat_try ev prompt (selected_model available_models inp) w of
               (w', Some e) \<Rightarrow> (w'\<lparr>ui := ui w' @ [StError (str_exn e)]\<rparr>, Completed)
             | (w', None) \<Rightarrow> (w', Completed))
          else chat_idle w)"

text \<open>One run of the script.\<close>

definition main_body ::
  "env \<Rightarrow> inputs \<Rightarrow> string list \<Rightarrow> string list \<Rightarrow> world \<Rightarrow> world \<times> outcome" where
  "main_body ev inp korpora_list available_models w =
     and_then (build_index ev inp korpora_list available_models
                 (w\<lparr>session := init_session_state (session w)\<rparr>))
       (\<lambda>w2. and_then (delete_block ev inp w2)
          (\<lambda>w3. and_then (show_history w3)
             (\<lambda>w4. chat_block ev inp available_models w4)))"

definition main :: "env \<Rightarrow> inputs \<Rightarrow> world \<Rightarrow> world \<times> outcome" where
  "main ev inp w =
     (case listdir ev korpora_path of
        Inl e \<Rightarrow> (w, Raised e)
      | Inr korpora_list \<Rightarrow>
          (case ollama_list ev of
             Inl e \<Rightarrow> (w, Raised e)
           | Inr models_info \<Rightarrow>
               (case extract_model_names models_info of
                  Inl e \<Rightarrow> (w, Raised e)
                | Inr available_models \<Rightarrow>
                    main_body ev inp korpora_list available_models w)))"

text \<open>A session is a sequence of runs, each with its own inputs and outside world.\<close>

fun run_session :: "(env \<times> inputs) list \<Rightarrow> world \<Rightarrow> world" where
  "run_session [] w = w"
| "run_session ((ev, inp) # rest) w = run_session rest (fst (main ev inp w))"

definition new_session :: session_state where
  "new_session = \<lparr>messages = None, vector_db = None, use_sample = None,
                  pdf_pages = None, file_upload = None\<rparr>"

definition initial_world :: world where
  "initial_world = \<lparr>session = new_session, store = Map.empty, calls = [], ui = []\<rparr>"

section \<open>Observations on the call log and the session\<close>

fun is_similarity_query :: "call \<Rightarrow> bool" where
  "is_similarity_query (SimilarityQuery h q k) = True"
| "is_similarity_query c = False"

fun is_generation :: "call \<Rightarrow> bool" where
  "is_generation (ChatGenerate m p) = True"
| "is_generation c = False"

fun is_paraphrase_request :: "call \<Rightarrow> bool" where
  "is_paraphrase_request (ChatGenerate m (QueryPrompt q)) = True"
| "is_paraphrase_request c = False"

fun is_build :: "call \<Rightarrow> bool" where
  "is_build (FromDocuments chunks em name) = True"
| "is_build c = False"

text \<open>The session holds an index when the key \<^verbatim>\<open>vector_db\<close> has a handle as its value.\<close>

fun has_index :: "session_state \<Rightarrow> bool" where
  "has_index s = (case vector_db s of Some (Some h) \<Rightarrow> True | _ \<Rightarrow> False)"

text \<open>
  The number of live indexes a log leaves behind: every build that returned adds one,
  every deletion that returned removes one.
\<close>

fun live_delta :: "call \<times> bool \<Rightarrow> int" where
  "live_delta (FromDocuments chunks em name, True) = 1"
| "live_delta (DeleteCollection h, True) = - 1"
| "live_delta c = 0"

definition live_indexes :: "(call \<times> bool) list \<Rightarrow> int" where
  "live_indexes log = sum_list (map live_delta log)"

text \<open>The calls that one run adds to the log.\<close>

definition run_calls :: "env \<Rightarrow> inputs \<Rightarrow> world \<Rightarrow> (call \<times> bool) list" where
  "run_calls ev inp w = drop (length (calls w)) (calls (fst (main ev inp w)))"

section \<open>Concrete sessions\<close>

text \<open>
  An outside world with one corpus directory that holds no markdown file, one model,
  and services that answer; the splitter returns its text as one section.
\<close>

definition empty_corpus_env :: env where
  "empty_corpus_env =
     \<lparr>listdir = (\<lambda>p. Inr [''ub'']),
      ollama_list = Inr [[(''name'', ''llama3'')]],
      glob_files = (\<lambda>p g. Inr []),
      load_file = (\<lambda>f. Inr []),
      split_text = (\<lambda>hs t. [\<lparr>page_content = t, metadata = []\<rparr>]),
      embed_failure = (\<lambda>m cs. None),
      delete_failure = (\<lambda>h. None),
      retrieve = (\<lambda>h q k. Inr []),
      chat = (\<lambda>m p. Inr ''Antwort'')\<rparr>"

text \<open>The same with one markdown file in the directory.\<close>

definition intro_doc :: Document where
  "intro_doc = \<lparr>page_content = ''Hello world.'', metadata = [(''source'', ''intro.md'')]\<rparr>"

definition one_file_env :: env where
  "one_file_env =
     empty_corpus_env\<lparr>glob_files := (\<lambda>p g. Inr [''intro.md'']),
                       load_file := (\<lambda>f. Inr [intro_doc])\<rparr>"

text \<open>The same with an embedding service that is down when the question is embedded.\<close>

definition retrieval_down_env :: env where
  "retrieval_down_env =
     one_file_env\<lparr>retrieve := (\<lambda>h q k. Inl (LibraryError ''connection refused''))\<rparr>"

text \<open>The same with a vector store that refuses to delete.\<close>

definition delete_down_env :: env where
  "delete_down_env =
     one_file_env\<lparr>delete_failure := (\<lambda>h. Some (LibraryError ''collection is locked''))\<rparr>"

definition myrag :: Chroma where
  "myrag = \<lparr>collection_name = ''myRAG'', embedding = ''llama3''\<rparr>"

definition no_action :: inputs where
  "no_action = \<lparr>model_select = ''llama3'', korpus_select = ''ub'',
                 embedding_select = ''llama3'', delete_button = False, chat_input = None\<rparr>"

definition ask :: "string \<Rightarrow> inputs" where
  "ask q = no_action\<lparr>chat_input := Some q\<rparr>"

definition press_reload :: inputs where
  "press_reload = no_action\<lparr>delete_button := True\<rparr>"

text \<open>A session with an index and a transcript of one turn.\<close>

definition chatted_world :: world where
  "chatted_world =
     \<lparr>session = \<lparr>messages = Some [\<lparr>role = ''user'', content = ''Hallo''\<rparr>,
                                     \<lparr>role = ''assistant'', content = ''Antwort''\<rparr>],
                  vector_db = Some (Some myrag), use_sample = Some False,
                  pdf_pages = None, file_upload = None\<rparr>,
      store = [''myRAG'' \<mapsto> [intro_doc]],
      calls = [(FromDocuments [intro_doc] ''llama3'' ''myRAG'', True)],
      ui = []\<rparr>"

text \<open>A fresh session on a vector store that may already hold collections.\<close>

definition session_on :: "(string \<rightharpoonup> Document list) \<Rightarrow> world" where
  "session_on st = \<lparr>session = new_session, store = st, calls = [], ui = []\<rparr>"

text \<open>A session after its first lines, with no index and an empty transcript.\<close>

definition waiting_world :: world where
  "waiting_world = initial_world\<lparr>session := init_session_state new_session\<rparr>"

section \<open>Invariants of a run\<close>

text \<open>The number of index builds in a log, and whether an entry builds under a given name.\<close>

definition builds :: "(call \<times> bool) list \<Rightarrow> nat" where
  "builds log = length (filter (\<lambda>c. is_build (fst c)) log)"

fun built_under :: "string \<Rightarrow> call \<times> bool \<Rightarrow> bool" where
  "built_under n (FromDocuments chunks em name, ok) = (name = n)"
| "built_under n c = True"

text \<open>A block adds \<open>xs\<close> to the log; a stretch of log is quiet when it builds nothing.\<close>

definition adds :: "world \<Rightarrow> world \<times> outcome \<Rightarrow> (call \<times> bool) list \<Rightarrow> bool" where
  "adds w r xs = (calls (fst r) = calls w @ xs)"

definition quiet :: "string \<Rightarrow> (call \<times> bool) list \<Rightarrow> bool" where
  "quiet n xs = (builds xs = 0 \<and> list_all (built_under n) xs)"

text \<open>The log and the session agree on whether an index is live.\<close>

definition live_ok :: "world \<Rightarrow> bool" where
  "live_ok w = (live_indexes (calls w) = (if has_index (session w) then 1 else 0))"

text \<open>The handle of the session, when there is one, names the collection \<^verbatim>\<open>myRAG\<close>.\<close>

definition handle_named :: "world \<Rightarrow> bool" where
  "handle_named w =
     (case vector_db (session w) of
        Some (Some h) \<Rightarrow> collection_name h = ''myRAG''
      | _ \<Rightarrow> True)"

section \<open>The header splitter\<close>

text \<open>
  Modelled from the spec: \<^verbatim>\<open>MarkdownHeaderTextSplitter.split_text\<close>, the library function
  that \<open>split_documents\<close> calls on every document, is not part of the sources. The
  definitions of this section follow the description of the Chunker: the content is cut
  at the lines that begin with one to four \<^verbatim>\<open>#\<close> characters, each such line starts a
  new section, a section carries the nearest enclosing header text of every level, the
  content before the first header is a chunk with no header metadata, and a document
  with no header is one chunk equal to its content. The header table is the one of the
  script, \<open>headers_to_split_on\<close>.
\<close>

text \<open>A header: its level, its metadata key and its text.\<close>

type_synonym header = "nat \<times> string \<times> string"

text \<open>Modelled from the spec: the lines of a text, and the text of a list of lines.\<close>

fun split_lines :: "string \<Rightarrow> string list" where
  "split_lines [] = [[]]"
| "split_lines (c # cs) =
     (if c = CHR 0x0A then [] # split_lines cs
      else (case split_lines cs of [] \<Rightarrow> [[c]] | l # ls \<Rightarrow> (c # l) # ls))"

fun join_lines :: "string list \<Rightarrow> string" where
  "join_lines [] = []"
| "join_lines [l] = l"
| "join_lines (l # l' # ls) = l @ CHR 0x0A # join_lines (l' # ls)"

text \<open>
  Modelled from the spec: a header line is a line whose leading run of \<^verbatim>\<open>#\<close> is one of
  the separators of the table; its text is what follows, without the leading blanks.
\<close>

definition header_line :: "(string \<times> string) list \<Rightarrow> string \<Rightarrow> header option" where
  "header_line table line =
     (let marks = takeWhile (\<lambda>c. c = CHR ''#'') line in
      case map_of table marks of
        None \<Rightarrow> None
      | Some key \<Rightarrow>
          Some (length marks, key, dropWhile (\<lambda>c. c = CHR '' '') (drop (length marks) line)))"

text \<open>
  Modelled from the spec: a new header closes the headers of its own and of deeper
  levels and is enclosed by the remaining ones.
\<close>

definition enter :: "header \<Rightarrow> header list \<Rightarrow> header list" where
  "enter h chain = filter (\<lambda>x. fst x < fst h) chain @ [h]"

text \<open>
  Modelled from the spec: the sections of a list of lines, each with the chain of
  headers that encloses it and its own lines. The first section is what precedes the
  first header line.
\<close>

fun sections ::
  "(string \<times> string) list \<Rightarrow> header list \<Rightarrow> string list \<Rightarrow> string list
     \<Rightarrow> (header list \<times> string list) list" where
  "sections table chain body [] = [(chain, body)]"
| "sections table chain body (l # ls) =
     (case header_line table l of
        None \<Rightarrow> sections table chain (body @ [l]) ls
      | Some h \<Rightarrow> (chain, body) # sections table (enter h chain) [] ls)"

definition chunk_of :: "header list \<times> string list \<Rightarrow> Document" where
  "chunk_of s = \<lparr>page_content = join_lines (snd s), metadata = map snd (fst s)\<rparr>"

definition starts_with_header :: "(string \<times> string) list \<Rightarrow> string list \<Rightarrow> bool" where
  "starts_with_header table ls =
     (case ls of [] \<Rightarrow> False | l # rest \<Rightarrow> header_line table l \<noteq> None)"

text \<open>
  Modelled from the spec: the chunks of a text are its sections in order; the section
  before the first header is left out when the text starts with a header line, since
  then nothing precedes that header.
\<close>

definition md_split_text :: "(string \<times> string) list \<Rightarrow> string \<Rightarrow> Document list" where
  "md_split_text table text =
     (let ls = split_lines text; secs = sections table [] [] ls
      in map chunk_of (if starts_with_header table ls then tl secs else secs))"

text \<open>
  The header lines of a text in order, and the number of chunks that precede the chunk
  of the first header: one when the first line of the text is not a header line.
\<close>

definition doc_headers :: "(string \<times> string) list \<Rightarrow> string \<Rightarrow> header list" where
  "doc_headers table text = List.map_filter (header_line table) (split_lines text)"

definition preamble_count :: "(string \<times> string) list \<Rightarrow> string \<Rightarrow> nat" where
  "preamble_count table text = (if starts_with_header table (split_lines text) then 0 else 1)"

text \<open>
  The nearest enclosing header of level \<open>l\<close> after the headers \<open>hs\<close>: the last header
  of level \<open>l\<close> or less, when its level is \<open>l\<close>; a later header of a lesser level has
  closed it otherwise.
\<close>

definition enclosing_header :: "nat \<Rightarrow> header list \<Rightarrow> header option" where
  "enclosing_header l hs =
     (case rev (filter (\<lambda>h. fst h \<le> l) hs) of
        [] \<Rightarrow> None
      | h # outer \<Rightarrow> if fst h = l then Some h else None)"

definition enclosing :: "nat \<Rightarrow> header list \<Rightarrow> string option" where
  "enclosing l hs =
     (case rev (filter (\<lambda>h. fst h \<le> l) hs) of
        [] \<Rightarrow> None
      | h # outer \<Rightarrow> if fst h = l then Some (snd (snd h)) else None)"

text \<open>The levels of the script's header table with their keys.\<close>

definition header_levels :: "(nat \<times> string) list" where
  "header_levels = map (\<lambda>(sep, key). (length sep, key)) headers_to_split_on"

text \<open>The chains of the successive sections, and the header of a level in a chain.\<close>

fun chains :: "header list \<Rightarrow> header list \<Rightarrow> header list list" where
  "chains c [] = [c]"
| "chains c (h # hs) = c # chains (enter h c) hs"

definition level_find :: "nat \<Rightarrow> header list \<Rightarrow> header option" where
  "level_find l c = find (\<lambda>h. fst h = l) c"

definition keyed :: "header \<Rightarrow> bool" where
  "keyed h = ((fst h, fst (snd h)) \<in> set header_levels)"

text \<open>The file of the Chunker's scenario and a file with no header.\<close>

definition intro_md :: string where
  "intro_md = ''# Intro\<newline>Hello world.\<newline>## Details\<newline>More text.''"

definition intro_md_doc :: Document where
  "intro_md_doc = \<lparr>page_content = intro_md, metadata = [(''source'', ''intro.md'')]\<rparr>"

definition plain_doc :: Document where
  "plain_doc = \<lparr>page_content = ''Hello world.\<newline>More text.'',
                 metadata = [(''source'', ''plain.md'')]\<rparr>"

section \<open>Lemmas\<close>

lemmas script_defs =
  main_def main_body_def korpora_path_def init_session_state_def build_index_def
  selected_korpus_def selected_model_def selected_embedding_model_def load_documents_def
  split_documents_def from_documents_def delete_block_def delete_vector_db_def
  show_history_def chat_block_def chat_idle_def chat_try_def process_question_def Let_def

lemmas example_defs =
  empty_corpus_env_def one_file_env_def retrieval_down_env_def delete_down_env_def
  intro_doc_def myrag_def
  no_action_def ask_def press_reload_def chatted_world_def initial_world_def new_session_def
  session_on_def waiting_world_def

subsection \<open>Sequencing of blocks\<close>

lemma and_then_keeps:
  assumes "P (fst r)" and "\<And>w. P w \<Longrightarrow> P (fst (f w))"
  shows "P (fst (and_then r f))"
proof (cases r)
  case (Pair w out)
  with assms show ?thesis by (cases out) simp_all
qed

lemma main_cases:
  "(\<exists>e. main ev inp w = (w, Raised e)) \<or> (\<exists>kl ms. main ev inp w = main_body ev inp kl ms w)"
  by (auto simp: main_def split: sum.splits)

subsection \<open>The live-index count\<close>

lemma live_indexes_append: "live_indexes (xs @ ys) = live_indexes xs + live_indexes ys"
  by (simp add: live_indexes_def)

lemma live_indexes_process_question: "live_indexes (fst (process_question ev q h m)) = 0"
  by (simp add: process_question_def live_indexes_def split: sum.splits)

lemma live_indexes_process_question_eq:
  "process_question ev q h m = (cs, r) \<Longrightarrow> live_indexes cs = 0"
  using live_indexes_process_question [of ev q h m] by simp

lemma has_index_init: "has_index (init_session_state s) = has_index s"
  by (simp add: init_session_state_def Let_def split: option.splits)

lemma live_ok_init: "live_ok w \<Longrightarrow> live_ok (w\<lparr>session := init_session_state (session w)\<rparr>)"
  by (simp add: live_ok_def has_index_init del: has_index.simps)

lemma live_ok_build:
  "live_ok w \<Longrightarrow> live_ok (fst (build_index ev inp kl ms w))"
  by (auto simp: Let_def live_ok_def build_index_def from_documents_def live_indexes_append
        live_indexes_def split: option.splits sum.splits prod.splits if_splits)

lemma live_ok_delete:
  "live_ok w \<Longrightarrow> live_ok (fst (delete_block ev inp w))"
  by (auto simp: live_ok_def delete_block_def delete_vector_db_def live_indexes_append
        live_indexes_def split: option.splits sum.splits if_splits)

lemma live_ok_history:
  "live_ok w \<Longrightarrow> live_ok (fst (show_history w))"
  by (auto simp: live_ok_def show_history_def split: option.splits)

lemma live_ok_chat_try:
  "live_ok w \<Longrightarrow> live_ok (fst (chat_try ev q sm w))"
  by (auto simp: live_ok_def chat_try_def Let_def live_indexes_append
        dest: live_indexes_process_question_eq
        split: option.splits prod.splits sum.splits)

lemma live_ok_idle: "live_ok w \<Longrightarrow> live_ok (fst (chat_idle w))"
  by (simp add: live_ok_def chat_idle_def split: option.splits)

lemma live_ok_chat:
  assumes "live_ok w"
  shows "live_ok (fst (chat_block ev inp ms w))"
proof (cases "chat_input inp")
  case None
  with assms show ?thesis by (simp add: chat_block_def live_ok_idle)
next
  case (Some q)
  show ?thesis
  proof (cases "q = []")
    case True
    with Some assms show ?thesis by (simp add: chat_block_def live_ok_idle)
  next
    case False
    obtain w' r where t: "chat_try ev q (selected_model ms inp) w = (w', r)"
      by (cases "chat_try ev q (selected_model ms inp) w")
    from assms have "live_ok (fst (chat_try ev q (selected_model ms inp) w))"
      by (rule live_ok_chat_try)
    with t have "live_ok w'" by simp
    then have "live_ok (w'\<lparr>ui := u\<rparr>)" for u
      by (simp add: live_ok_def)
    with Some False t \<open>live_ok w'\<close> show ?thesis
      by (cases r) (simp_all add: chat_block_def)
  qed
qed

lemma live_ok_main_body:
  assumes "live_ok w"
  shows "live_ok (fst (main_body ev inp kl ms w))"
proof -
  have chat: "live_ok (fst (chat_block ev inp ms w4))" if "live_ok w4" for w4
    using that by (rule live_ok_chat)
  have hist: "live_ok (fst (and_then (show_history w3) (chat_block ev inp ms)))"
    if "live_ok w3" for w3
    using live_ok_history [OF that] chat by (rule and_then_keeps)
  have del: "live_ok (fst (and_then (delete_block ev inp w2)
               (\<lambda>w3. and_then (show_history w3) (chat_block ev inp ms))))"
    if "live_ok w2" for w2
    using live_ok_delete [OF that] hist by (rule and_then_keeps)
  have "live_ok (fst (build_index ev inp kl ms (w\<lparr>session := init_session_state (session w)\<rparr>)))"
    using assms by (intro live_ok_build live_ok_init)
  then show ?thesis
    unfolding main_body_def using del by (rule and_then_keeps)
qed

lemma live_ok_main: "live_ok w \<Longrightarrow> live_ok (fst (main ev inp w))"
  using main_cases [of ev inp w] by (auto simp: live_ok_main_body)

lemma live_ok_run_session: "live_ok w \<Longrightarrow> live_ok (run_session rs w)"
  by (induction rs arbitrary: w) (auto simp: live_ok_main)

lemma live_ok_initial: "live_ok initial_world"
  by (simp add: live_ok_def initial_world_def new_session_def live_indexes_def)

subsection \<open>What a run adds to the log\<close>

lemma builds_append: "builds (xs @ ys) = builds xs + builds ys"
  by (simp add: builds_def)

lemma builds_Nil: "builds [] = 0"
  by (simp add: builds_def)

lemma quiet_Nil: "quiet n []"
  by (simp add: quiet_def builds_def)

lemma quiet_append: "quiet n xs \<Longrightarrow> quiet n ys \<Longrightarrow> quiet n (xs @ ys)"
  by (simp add: quiet_def builds_append)

lemma builds_process_question: "process_question ev q h m = (cs, r) \<Longrightarrow> builds cs = 0"
  by (auto simp: process_question_def builds_def split: sum.splits)

lemma named_process_question:
  "process_question ev q h m = (cs, r) \<Longrightarrow> list_all (built_under n) cs"
  by (auto simp: process_question_def split: sum.splits)

lemma adds_build_index:
  "\<exists>xs. adds w (build_index ev inp kl ms w) xs \<and> builds xs \<le> 1
      \<and> list_all (built_under ''myRAG'') xs \<and> (has_index (session w) \<longrightarrow> xs = [])"
  by (auto simp: adds_def build_index_def Let_def builds_def
        split: option.splits sum.splits prod.splits)

lemma adds_delete_block:
  "\<exists>xs. adds w (delete_block ev inp w) xs \<and> builds xs = 0 \<and> list_all (built_under n) xs"
  by (auto simp: adds_def delete_block_def delete_vector_db_def builds_def
        split: option.splits)

lemma adds_show_history:
  "adds w (show_history w) []"
  by (auto simp: adds_def show_history_def split: option.splits)

lemma adds_chat_try:
  "\<exists>xs. calls (fst (chat_try ev q sm w)) = calls w @ xs \<and> builds xs = 0
      \<and> list_all (built_under n) xs"
  by (auto simp: chat_try_def Let_def builds_def
        dest: builds_process_question named_process_question
        split: option.splits sum.splits prod.splits)

lemma adds_chat_idle: "adds w (chat_idle w) []"
  by (auto simp: adds_def chat_idle_def split: option.splits)

lemma adds_chat_block:
  "\<exists>xs. adds w (chat_block ev inp ms w) xs \<and> builds xs = 0 \<and> list_all (built_under n) xs"
proof (cases "chat_input inp")
  case None
  then show ?thesis
    using adds_chat_idle [of w] by (auto simp: chat_block_def builds_def)
next
  case (Some q)
  show ?thesis
  proof (cases "q = []")
    case True
    with Some show ?thesis
      using adds_chat_idle [of w] by (auto simp: chat_block_def builds_def)
  next
    case False
    obtain xs where "calls (fst (chat_try ev q (selected_model ms inp) w)) = calls w @ xs"
      and "builds xs = 0" and "list_all (built_under n) xs"
      using adds_chat_try by blast
    with Some False show ?thesis
      by (auto simp: chat_block_def adds_def split: prod.splits option.splits)
  qed
qed

lemma adds_and_then:
  assumes "adds w r xs" and "\<And>w'. \<exists>ys. adds w' (f w') ys \<and> Q ys" and "Q []"
  shows "\<exists>ys. adds w (and_then r f) (xs @ ys) \<and> Q ys"
proof (cases r)
  case (Pair w' out)
  show ?thesis
  proof (cases out)
    case Completed
    obtain ys where "adds w' (f w') ys" and "Q ys"
      using assms(2) by blast
    with Pair Completed assms(1) show ?thesis
      by (auto simp: adds_def)
  next
    case Rerun
    with Pair assms(1,3) show ?thesis
      by (auto simp: adds_def)
  next
    case (Raised e)
    with Pair assms(1,3) show ?thesis
      by (auto simp: adds_def)
  qed
qed

lemma adds_after_build:
  "\<exists>ys. adds w2 (and_then (delete_block ev inp w2)
            (\<lambda>w3. and_then (show_history w3) (chat_block ev inp ms))) ys \<and> quiet n ys"
proof -
  have chat: "\<exists>ys. adds w4 (chat_block ev inp ms w4) ys \<and> quiet n ys" for w4
    using adds_chat_block [of w4 ev inp ms n] by (simp add: quiet_def)
  have hist: "\<exists>ys. adds w3 (and_then (show_history w3) (chat_block ev inp ms)) ys \<and> quiet n ys"
    for w3
    using adds_and_then [OF adds_show_history, of "chat_block ev inp ms" "quiet n" w3]
      chat quiet_Nil by simp
  obtain xs where d: "adds w2 (delete_block ev inp w2) xs" and q: "quiet n xs"
    using adds_delete_block [of w2 ev inp n] by (auto simp: quiet_def)
  have "\<exists>ys. adds w2 (and_then (delete_block ev inp w2)
      (\<lambda>w3. and_then (show_history w3) (chat_block ev inp ms))) (xs @ ys) \<and> quiet n ys"
    using d hist quiet_Nil by (rule adds_and_then)
  with q show ?thesis
    by (blast intro: quiet_append)
qed

lemma adds_main_body:
  "\<exists>zs. calls (fst (main_body ev inp kl ms w)) = calls w @ zs \<and> builds zs \<le> 1
      \<and> list_all (built_under ''myRAG'') zs \<and> (has_index (session w) \<longrightarrow> builds zs = 0)"
proof -
  let ?w1 = "w\<lparr>session := init_session_state (session w)\<rparr>"
  obtain xs where b: "adds ?w1 (build_index ev inp kl ms ?w1) xs" and x1: "builds xs \<le> 1"
    and x2: "list_all (built_under ''myRAG'') xs"
    and x3: "has_index (session ?w1) \<longrightarrow> xs = []"
    using adds_build_index [of ?w1 ev inp kl ms] by blast
  have "\<exists>ys. adds ?w1 (main_body ev inp kl ms w) (xs @ ys) \<and> quiet ''myRAG'' ys"
    unfolding main_body_def
    using b adds_after_build quiet_Nil by (rule adds_and_then)
  then obtain ys where a: "adds ?w1 (main_body ev inp kl ms w) (xs @ ys)"
    and y: "quiet ''myRAG'' ys"
    by blast
  have "has_index (session w) \<longrightarrow> xs = []"
    using x3 by (simp add: has_index_init del: has_index.simps)
  with a x1 x2 y show ?thesis
    by (auto simp: adds_def quiet_def builds_append builds_Nil)
qed

lemma adds_main:
  "\<exists>zs. calls (fst (main ev inp w)) = calls w @ zs \<and> builds zs \<le> 1
      \<and> list_all (built_under ''myRAG'') zs \<and> (has_index (session w) \<longrightarrow> builds zs = 0)"
  using adds_main_body [of ev inp _ _ w]
  by (auto simp: main_def builds_def split: sum.splits)

lemma run_calls_props:
  "builds (run_calls ev inp w) \<le> 1 \<and> list_all (built_under ''myRAG'') (run_calls ev inp w)
   \<and> (has_index (session w) \<longrightarrow> builds (run_calls ev inp w) = 0)"
  using adds_main [of ev inp w] by (auto simp: run_calls_def)

lemma named_main: "list_all (built_under ''myRAG'') (calls w) \<Longrightarrow>
    list_all (built_under ''myRAG'') (calls (fst (main ev inp w)))"
  using adds_main [of ev inp w] by auto

lemma named_run_session: "list_all (built_under ''myRAG'') (calls w) \<Longrightarrow>
    list_all (built_under ''myRAG'') (calls (run_session rs w))"
  by (induction rs arbitrary: w) (auto simp: named_main)

subsection \<open>The handle through a run\<close>

lemma vector_db_init:
  "vector_db s = Some v \<Longrightarrow> vector_db (init_session_state s) = Some v"
  by (simp add: init_session_state_def Let_def)

lemma vector_db_chat_try:
  "vector_db (session (fst (chat_try ev q sm w))) = vector_db (session w)"
  by (simp add: chat_try_def Let_def split: option.splits prod.splits sum.splits)

lemma vector_db_chat_block:
  "vector_db (session (fst (chat_block ev inp ms w))) = vector_db (session w)"
proof -
  have idle: "vector_db (session (fst (chat_idle w))) = vector_db (session w)"
    by (simp add: chat_idle_def split: option.splits)
  have "vector_db (session (fst (case chat_try ev q sm w of
            (w', Some e) \<Rightarrow> (w'\<lparr>ui := ui w' @ [StError (str_exn e)]\<rparr>, Completed)
          | (w', None) \<Rightarrow> (w', Completed)))) = vector_db (session w)" for q sm
    using vector_db_chat_try [of ev q sm w]
    by (cases "chat_try ev q sm w") (auto split: option.splits)
  with idle show ?thesis
    by (simp add: chat_block_def split: option.splits)
qed

lemma vector_db_show_history:
  "vector_db (session (fst (show_history w))) = vector_db (session w)"
  by (simp add: show_history_def split: option.splits)

lemma vector_db_and_then:
  assumes "vector_db (session (fst r)) = v"
    and "\<And>w. vector_db (session (fst (f w))) = vector_db (session w)"
  shows "vector_db (session (fst (and_then r f))) = v"
proof (cases r)
  case (Pair w out)
  with assms show ?thesis by (cases out) simp_all
qed

lemma vector_db_tail:
  "vector_db (session (fst (and_then (show_history w) (chat_block ev inp ms)))) =
     vector_db (session w)"
  using vector_db_show_history vector_db_chat_block by (rule vector_db_and_then)

lemma main_body_with_index:
  assumes "vector_db (session w) = Some (Some h)"
  shows "vector_db (session (fst (main_body ev inp kl ms w))) = Some (Some h)
         \<or> (delete_button inp \<and> delete_failure ev h = None
            \<and> snd (main_body ev inp kl ms w) = Rerun
            \<and> vector_db (session (fst (main_body ev inp kl ms w))) = None
            \<and> calls (fst (main_body ev inp kl ms w)) = calls w @ [(DeleteCollection h, True)])"
proof -
  let ?w1 = "w\<lparr>session := init_session_state (session w)\<rparr>"
  have v1: "vector_db (session ?w1) = Some (Some h)"
    using assms by (simp add: vector_db_init)
  then have b: "build_index ev inp kl ms ?w1 = (?w1, Completed)"
    by (simp add: build_index_def)
  show ?thesis
  proof (cases "delete_button inp")
    case False
    then have "delete_block ev inp ?w1 = (?w1, Completed)"
      by (simp add: delete_block_def)
    with b have "main_body ev inp kl ms w =
        and_then (show_history ?w1) (chat_block ev inp ms)"
      by (simp add: main_body_def)
    with v1 show ?thesis
      by (simp add: vector_db_tail)
  next
    case True
    show ?thesis
    proof (cases "delete_failure ev h")
      case (Some e)
      with True v1 have "delete_block ev inp ?w1 =
          (?w1\<lparr>calls := calls ?w1 @ [(DeleteCollection h, False)]\<rparr>, Raised e)"
        by (simp add: delete_block_def delete_vector_db_def)
      with b v1 show ?thesis
        by (simp add: main_body_def)
    next
      case None
      with True v1 have "delete_block ev inp ?w1 =
          (?w1\<lparr>store := (store ?w1)(collection_name h := None),
              session := (session ?w1)\<lparr>pdf_pages := None, file_upload := None,
                                        vector_db := None\<rparr>,
              calls := calls ?w1 @ [(DeleteCollection h, True)],
              ui := ui ?w1 @ [StSuccess ''Collection and temporary files deleted successfully.'']\<rparr>,
           Rerun)"
        by (simp add: delete_block_def delete_vector_db_def)
      with b True None show ?thesis
        by (simp add: main_body_def)
    qed
  qed
qed

lemma main_with_index:
  assumes "vector_db (session w) = Some (Some h)"
  shows "vector_db (session (fst (main ev inp w))) = Some (Some h)
         \<or> (delete_button inp \<and> delete_failure ev h = None
            \<and> snd (main ev inp w) = Rerun
            \<and> vector_db (session (fst (main ev inp w))) = None
            \<and> run_calls ev inp w = [(DeleteCollection h, True)])"
proof -
  consider e where "main ev inp w = (w, Raised e)"
    | kl ms where "main ev inp w = main_body ev inp kl ms w"
    using main_cases [of ev inp w] by blast
  then show ?thesis
  proof cases
    case 1
    with assms show ?thesis by simp
  next
    case 2
    with main_body_with_index [OF assms, of ev inp kl ms] show ?thesis
      by (auto simp: run_calls_def)
  qed
qed

lemma handle_named_build:
  "handle_named w \<Longrightarrow> handle_named (fst (build_index ev inp kl ms w))"
  by (auto simp: handle_named_def build_index_def from_documents_def Let_def
        split: option.splits sum.splits prod.splits)

lemma handle_named_init:
  "handle_named w \<Longrightarrow> handle_named (w\<lparr>session := init_session_state (session w)\<rparr>)"
  by (auto simp: handle_named_def init_session_state_def Let_def split: option.splits)

lemma handle_named_delete:
  "handle_named w \<Longrightarrow> handle_named (fst (delete_block ev inp w))"
  by (auto simp: handle_named_def delete_block_def delete_vector_db_def split: option.splits)

lemma handle_named_tail:
  "handle_named w \<Longrightarrow> handle_named (fst (and_then (show_history w) (chat_block ev inp ms)))"
  by (simp add: handle_named_def vector_db_tail)

lemma handle_named_main_body:
  assumes "handle_named w"
  shows "handle_named (fst (main_body ev inp kl ms w))"
proof -
  have del: "handle_named (fst (and_then (delete_block ev inp w2)
               (\<lambda>w3. and_then (show_history w3) (chat_block ev inp ms))))"
    if "handle_named w2" for w2
    using handle_named_delete [OF that] handle_named_tail by (rule and_then_keeps)
  have "handle_named (fst (build_index ev inp kl ms
           (w\<lparr>session := init_session_state (session w)\<rparr>)))"
    using assms by (intro handle_named_build handle_named_init)
  then show ?thesis
    unfolding main_body_def using del by (rule and_then_keeps)
qed

lemma handle_named_main: "handle_named w \<Longrightarrow> handle_named (fst (main ev inp w))"
  using main_cases [of ev inp w] by (auto simp: handle_named_main_body)

lemma handle_named_run_session: "handle_named w \<Longrightarrow> handle_named (run_session rs w)"
  by (induction rs arbitrary: w) (auto simp: handle_named_main)

lemma handle_named_session_on: "handle_named (session_on st)"
  by (simp add: handle_named_def session_on_def new_session_def)

subsection \<open>The header splitter\<close>

lemma split_loop_concat:
  "split_loop sp docs acc = acc @ concat (map (\<lambda>d. sp (page_content d)) docs)"
  by (induction docs arbitrary: acc) simp_all

lemma split_documents_single:
  "split_documents splitter [doc] = splitter headers_to_split_on (page_content doc)"
  by (simp add: split_documents_def)

lemma split_lines_not_Nil: "split_lines s \<noteq> []"
  by (induction s) (auto split: list.splits)

lemma join_lines_Cons: "ls \<noteq> [] \<Longrightarrow> join_lines (l # ls) = l @ CHR 0x0A # join_lines ls"
  by (cases ls) simp_all

lemma join_lines_Cons_char: "join_lines ((c # l) # ls) = c # join_lines (l # ls)"
  by (cases ls) simp_all

lemma join_split_lines: "join_lines (split_lines s) = s"
proof (induction s)
  case Nil
  show ?case by simp
next
  case (Cons c cs)
  show ?case
  proof (cases "c = CHR 0x0A")
    case True
    with Cons show ?thesis
      by (simp add: join_lines_Cons split_lines_not_Nil)
  next
    case False
    obtain l ls where "split_lines cs = l # ls"
      using split_lines_not_Nil [of cs] by (cases "split_lines cs") auto
    with False Cons show ?thesis
      by (simp add: join_lines_Cons_char)
  qed
qed

lemma map_filter_Nil_iff: "List.map_filter f xs = [] \<longleftrightarrow> (\<forall>x \<in> set xs. f x = None)"
  by (induction xs) (auto simp: List.map_filter_simps split: option.splits)

lemma sections_plain:
  "\<forall>l \<in> set ls. header_line table l = None \<Longrightarrow>
     sections table chain body ls = [(chain, body @ ls)]"
  by (induction ls arbitrary: body) simp_all

lemma length_sections:
  "length (sections table chain body ls) = Suc (length (List.map_filter (header_line table) ls))"
  by (induction ls arbitrary: chain body)
     (auto simp: List.map_filter_simps split: option.splits)

lemma chains_sections:
  "map fst (sections table chain body ls) = chains chain (List.map_filter (header_line table) ls)"
  by (induction ls arbitrary: chain body)
     (auto simp: List.map_filter_simps split: option.splits)

lemma chains_nth:
  "j \<le> length hs \<Longrightarrow> chains c hs ! j = foldl (\<lambda>c h. enter h c) c (take j hs)"
proof (induction hs arbitrary: c j)
  case Nil
  then show ?case by simp
next
  case (Cons h hs)
  then show ?case by (cases j) simp_all
qed

lemma find_append_case:
  "find P (xs @ ys) = (case find P xs of None \<Rightarrow> find P ys | Some x \<Rightarrow> Some x)"
  by (induction xs) simp_all

lemma find_filter_conj: "find P (filter Q xs) = find (\<lambda>x. Q x \<and> P x) xs"
  by (induction xs) simp_all

lemma find_False: "(\<And>x. x \<in> set xs \<Longrightarrow> \<not> P x) \<Longrightarrow> find P xs = None"
  by (induction xs) simp_all

lemma find_cong_set: "(\<And>x. x \<in> set xs \<Longrightarrow> P x = Q x) \<Longrightarrow> find P xs = find Q xs"
  by (induction xs) simp_all

lemma level_find_enter:
  "level_find l (enter h c) =
     (if fst h = l then Some h else if l < fst h then level_find l c else None)"
proof -
  have lower: "find (\<lambda>x. fst x = l) (filter (\<lambda>x. fst x < fst h) c) =
      (if l < fst h then find (\<lambda>x. fst x = l) c else None)"
  proof (cases "l < fst h")
    case True
    have "find (\<lambda>x. fst x < fst h \<and> fst x = l) c = find (\<lambda>x. fst x = l) c"
      using True by (intro find_cong_set) auto
    with True show ?thesis by (simp add: find_filter_conj)
  next
    case False
    have "find (\<lambda>x. fst x < fst h \<and> fst x = l) c = None"
      using False by (intro find_False) auto
    with False show ?thesis by (simp add: find_filter_conj)
  qed
  show ?thesis
    unfolding level_find_def enter_def
    by (auto simp: find_append_case lower split: option.splits)
qed

lemma enclosing_header_snoc:
  "enclosing_header l (hs @ [h]) =
     (if fst h = l then Some h else if l < fst h then enclosing_header l hs else None)"
  by (auto simp: enclosing_header_def)

lemma enclosing_title:
  "enclosing l hs = map_option (\<lambda>h. snd (snd h)) (enclosing_header l hs)"
  by (auto simp: enclosing_def enclosing_header_def split: list.splits)

lemma level_find_chain:
  "level_find l (foldl (\<lambda>c h. enter h c) [] hs) = enclosing_header l hs"
proof (induction hs rule: rev_induct)
  case Nil
  show ?case by (simp add: level_find_def enclosing_header_def)
next
  case (snoc h hs)
  then show ?case
    by (simp add: level_find_enter enclosing_header_snoc)
qed

lemma set_enter: "set (enter h c) \<subseteq> insert h (set c)"
  by (auto simp: enter_def)

lemma set_chain: "set (foldl (\<lambda>c h. enter h c) c0 hs) \<subseteq> set c0 \<union> set hs"
proof (induction hs arbitrary: c0)
  case Nil
  show ?case by simp
next
  case (Cons h hs)
  from Cons [of "enter h c0"] set_enter [of h c0] show ?case by auto
qed

lemma header_line_keyed: "header_line headers_to_split_on l = Some h \<Longrightarrow> keyed h"
  by (auto simp: header_line_def keyed_def header_levels_def Let_def
        split: option.splits dest!: map_of_SomeD)

lemma doc_headers_keyed: "h \<in> set (doc_headers headers_to_split_on text) \<Longrightarrow> keyed h"
  by (auto simp: doc_headers_def List.map_filter_def header_line_keyed)

lemma key_level:
  "(n, k) \<in> set header_levels \<Longrightarrow> (l, key) \<in> set header_levels \<Longrightarrow> (k = key) = (n = l)"
  by (auto simp: header_levels_def headers_to_split_on_def)

lemma metadata_lookup:
  assumes "\<And>h. h \<in> set c \<Longrightarrow> keyed h" and "(l, key) \<in> set header_levels"
  shows "map_of (map snd c) key = map_option (\<lambda>h. snd (snd h)) (level_find l c)"
  using assms(1)
proof (induction c)
  case Nil
  show ?case by (simp add: level_find_def)
next
  case (Cons h c)
  obtain n k t where h: "h = (n, k, t)"
    by (cases h)
  from Cons.prems [of h] h have "(n, k) \<in> set header_levels"
    by (simp add: keyed_def)
  then have "(k = key) = (n = l)"
    using assms(2) by (rule key_level)
  moreover have "map_of (map snd c) key = map_option (\<lambda>h. snd (snd h)) (level_find l c)"
    using Cons by simp
  ultimately show ?case
    by (auto simp: h level_find_def)
qed

lemmas splitter_defs =
  md_split_text_def starts_with_header_def chunk_of_def header_line_def enter_def
  headers_to_split_on_def doc_headers_def preamble_count_def Let_def

lemma sections_first: "fst (hd (sections table chain body ls)) = chain"
  by (induction ls arbitrary: body) (simp_all split: option.splits)

lemma header_chunk_nth:
  assumes "j < length (doc_headers table text)"
  shows "md_split_text table text ! (preamble_count table text + j) =
           \<lparr>page_content = join_lines (snd (sections table [] [] (split_lines text) ! Suc j)),
            metadata = map snd (foldl (\<lambda>c h. enter h c) [] (take (Suc j) (doc_headers table text)))\<rparr>"
proof -
  let ?secs = "sections table [] [] (split_lines text)"
  have len: "length ?secs = Suc (length (doc_headers table text))"
    by (simp add: length_sections doc_headers_def)
  with assms have j: "Suc j < length ?secs"
    by simp
  have "md_split_text table text ! (preamble_count table text + j) = chunk_of (?secs ! Suc j)"
    using j by (auto simp: md_split_text_def preamble_count_def Let_def nth_tl)
  moreover have "fst (?secs ! Suc j) = chains [] (doc_headers table text) ! Suc j"
    using j chains_sections [of table "[]" "[]" "split_lines text"]
    by (metis doc_headers_def nth_map)
  moreover have "chains [] (doc_headers table text) ! Suc j =
      foldl (\<lambda>c h. enter h c) [] (take (Suc j) (doc_headers table text))"
    using assms by (intro chains_nth) simp
  ultimately show ?thesis
    by (simp add: chunk_of_def)
qed

section \<open>The reload action\<close>

text \<open>
  Claim C1, as the script has it. Reloading with an index calls \<^verbatim>\<open>delete_collection\<close>.
  When the call returns, the collection is gone from the store, the handle is popped
  and the run ends with a rerun request. When the call raises, the exception leaves
  \<open>delete_vector_db\<close> and the session state and the store are as they were.
  Reloading with no index completes and leaves the session state as it was. No branch
  touches the transcript: the messages after \<open>delete_vector_db\<close> are the messages
  before it.
\<close>

theorem delete_vector_db_reset:
  "(delete_failure ev h = None \<longrightarrow>
      snd (delete_vector_db ev (Some h) w) = Rerun
      \<and> store (fst (delete_vector_db ev (Some h) w)) (collection_name h) = None
      \<and> vector_db (session (fst (delete_vector_db ev (Some h) w))) = None)
   \<and> (delete_failure ev h = Some e \<longrightarrow>
      snd (delete_vector_db ev (Some h) w) = Raised e
      \<and> session (fst (delete_vector_db ev (Some h) w)) = session w
      \<and> store (fst (delete_vector_db ev (Some h) w)) = store w)
   \<and> snd (delete_vector_db ev None w) = Completed
   \<and> session (fst (delete_vector_db ev None w)) = session w
   \<and> messages (session (fst (delete_vector_db ev vdb w))) = messages (session w)"
  by (simp add: delete_vector_db_def split: option.splits)

theorem delete_vector_db_reset_witness:
  "delete_failure one_file_env myrag = None
   \<and> snd (delete_vector_db one_file_env (Some myrag) chatted_world) = Rerun
   \<and> store (fst (delete_vector_db one_file_env (Some myrag) chatted_world)) ''myRAG'' = None
   \<and> vector_db (session (fst (delete_vector_db one_file_env (Some myrag) chatted_world))) = None
   \<and> messages (session (fst (delete_vector_db one_file_env (Some myrag) chatted_world))) =
       messages (session chatted_world)
   \<and> delete_failure delete_down_env myrag = Some (LibraryError ''collection is locked'')
   \<and> snd (delete_vector_db delete_down_env (Some myrag) chatted_world) =
       Raised (LibraryError ''collection is locked'')
   \<and> session (fst (delete_vector_db delete_down_env (Some myrag) chatted_world)) =
       session chatted_world
   \<and> store (fst (delete_vector_db delete_down_env (Some myrag) chatted_world)) =
       store chatted_world"
proof -
  have h: "delete_failure one_file_env myrag = None"
    by (simp add: example_defs)
  have d: "delete_failure delete_down_env myrag = Some (LibraryError ''collection is locked'')"
    by (simp add: example_defs)
  have n: "collection_name myrag = ''myRAG''"
    by (simp add: myrag_def)
  from h d n
    delete_vector_db_reset [of one_file_env myrag chatted_world
      "LibraryError ''collection is locked''" "Some myrag"]
    delete_vector_db_reset [of delete_down_env myrag chatted_world
      "LibraryError ''collection is locked''" "Some myrag"]
  show ?thesis by simp
qed

text \<open>
  Claim C1 as stated fails: a run with the reload button pressed on a session that has
  an index and two messages destroys the collection and the handle, and the two
  messages are still there.
\<close>

theorem reload_keeps_transcript_counterexample:
  "snd (main one_file_env press_reload chatted_world) = Rerun
   \<and> vector_db (session (fst (main one_file_env press_reload chatted_world))) = None
   \<and> store (fst (main one_file_env press_reload chatted_world)) ''myRAG'' = None
   \<and> messages (session (fst (main one_file_env press_reload chatted_world))) =
       Some [\<lparr>role = ''user'', content = ''Hallo''\<rparr>,
             \<lparr>role = ''assistant'', content = ''Antwort''\<rparr>]
   \<and> messages (session (fst (main one_file_env press_reload chatted_world))) \<noteq> Some []"
  by (simp add: script_defs example_defs)

section \<open>A question with no index\<close>

text \<open>
  Claim C2, as the script has it. A question typed while the session has no index
  raises nothing: the user message is appended to the transcript and shown, the
  warning is shown, no call goes to the store or the model, and no assistant message
  is appended.
\<close>

theorem chat_block_without_index:
  assumes "vector_db (session w) = Some None"
    and "messages (session w) = Some ms"
    and "chat_input inp = Some q"
    and "q \<noteq> []"
  shows "chat_block ev inp available_models w =
           (w\<lparr>session := (session w)\<lparr>messages :=
                  Some (ms @ [\<lparr>role = ''user'', content = q\<rparr>])\<rparr>,
              ui := ui w @ [StMarkdown q, StWarning ''Please upload a PDF file first.'']\<rparr>,
            Completed)"
  using assms by (simp add: chat_block_def chat_try_def)

theorem chat_block_without_index_witness:
  "vector_db (session waiting_world) = Some None
   \<and> messages (session waiting_world) = Some []
   \<and> chat_input (ask ''What is X?'') = Some ''What is X?''
   \<and> ''What is X?'' \<noteq> []
   \<and> chat_block empty_corpus_env (ask ''What is X?'') [''llama3''] waiting_world =
       (waiting_world\<lparr>session := (session waiting_world)\<lparr>messages :=
            Some ([] @ [\<lparr>role = ''user'', content = ''What is X?''\<rparr>])\<rparr>,
          ui := ui waiting_world @
            [StMarkdown ''What is X?'', StWarning ''Please upload a PDF file first.'']\<rparr>,
        Completed)"
proof -
  have a: "vector_db (session waiting_world) = Some None"
    by (simp add: example_defs init_session_state_def)
  have b: "messages (session waiting_world) = Some []"
    by (simp add: example_defs init_session_state_def)
  have c: "chat_input (ask ''What is X?'') = Some ''What is X?''"
    by (simp add: example_defs)
  have d: "''What is X?'' \<noteq> []"
    by simp
  from a b c d chat_block_without_index [OF a b c d, of empty_corpus_env "[''llama3'']"]
  show ?thesis by simp
qed

text \<open>
  Claim C2 as stated fails: in a new session whose corpus directory has no markdown
  file, so that no index is built, the question is not refused and the transcript
  changes from empty to the user message.
\<close>

theorem submit_without_index_counterexample:
  "snd (main empty_corpus_env (ask ''What is X?'') initial_world) = Completed
   \<and> vector_db (session (fst (main empty_corpus_env (ask ''What is X?'') initial_world))) =
       Some None
   \<and> messages (session (fst (main empty_corpus_env (ask ''What is X?'') initial_world))) =
       Some [\<lparr>role = ''user'', content = ''What is X?''\<rparr>]"
  by (simp add: script_defs example_defs)

section \<open>The calls of one answer\<close>

text \<open>
  Claim C3. Answering a question sends exactly one similarity query to the index, with
  \<open>k = 3\<close> and the question as typed, and never more than one generation: exactly
  one, with the answering template filled with what the query returned, whenever the
  query returns; a query that raises ends the answer there, since failures propagate
  with no fallback. No request with the paraphrasing template is ever sent.
\<close>

theorem process_question_calls:
  "filter is_similarity_query (map fst (fst (process_question ev q vdb m))) =
     [SimilarityQuery vdb q 3]
   \<and> filter is_generation (map fst (fst (process_question ev q vdb m))) =
       (case retrieve ev vdb q 3 of
          Inl e \<Rightarrow> []
        | Inr context \<Rightarrow> [ChatGenerate m (RagPrompt context q)])
   \<and> length (filter is_generation (map fst (fst (process_question ev q vdb m)))) \<le> 1
   \<and> length (fst (process_question ev q vdb m)) \<le> 2
   \<and> filter is_paraphrase_request (map fst (fst (process_question ev q vdb m))) = []"
  by (simp add: process_question_def split: sum.splits)

theorem process_question_calls_witness:
  "retrieve one_file_env myrag ''What is X?'' 3 = Inr []
   \<and> filter is_similarity_query
       (map fst (fst (process_question one_file_env ''What is X?'' myrag ''llama3''))) =
       [SimilarityQuery myrag ''What is X?'' 3]
   \<and> filter is_generation
       (map fst (fst (process_question one_file_env ''What is X?'' myrag ''llama3''))) =
       [ChatGenerate ''llama3'' (RagPrompt [] ''What is X?'')]
   \<and> snd (process_question one_file_env ''What is X?'' myrag ''llama3'') = Inr ''Antwort''"
proof -
  have r: "retrieve one_file_env myrag ''What is X?'' 3 = Inr []"
    by (simp add: example_defs)
  have a: "snd (process_question one_file_env ''What is X?'' myrag ''llama3'') = Inr ''Antwort''"
    by (simp add: process_question_def example_defs)
  from r a process_question_calls [of one_file_env "''What is X?''" myrag "''llama3''"]
  show ?thesis by simp
qed

section \<open>A failing answer\<close>

text \<open>
  Claim C4. When the session has an index and the answer to a question raises, in
  retrieval or in generation, the run goes on: the transcript gains the user message
  and nothing else, the exception is shown on the page, and the log gains the calls of
  that one attempt, a single similarity query and at most one generation.
\<close>

theorem chat_block_answer_failure:
  assumes "vector_db (session w) = Some (Some h)"
    and "messages (session w) = Some ms"
    and "chat_input inp = Some q"
    and "q \<noteq> []"
    and "available_models \<noteq> []"
    and "snd (process_question ev q h (model_select inp)) = Inl e"
  shows "chat_block ev inp available_models w =
           (w\<lparr>session := (session w)\<lparr>messages :=
                  Some (ms @ [\<lparr>role = ''user'', content = q\<rparr>])\<rparr>,
              calls := calls w @ fst (process_question ev q h (model_select inp)),
              ui := ui w @ [StMarkdown q, StError (str_exn e)]\<rparr>,
            Completed)
         \<and> length (filter is_similarity_query
              (map fst (fst (process_question ev q h (model_select inp))))) = 1
         \<and> length (filter is_generation
              (map fst (fst (process_question ev q h (model_select inp))))) \<le> 1"
proof -
  obtain cs where p: "process_question ev q h (model_select inp) = (cs, Inl e)"
    using assms(6) by (cases "process_question ev q h (model_select inp)") simp
  have "chat_try ev q (Some (model_select inp)) w =
          (w\<lparr>session := (session w)\<lparr>messages :=
                 Some (ms @ [\<lparr>role = ''user'', content = q\<rparr>])\<rparr>,
             calls := calls w @ cs,
             ui := ui w @ [StMarkdown q]\<rparr>, Some e)"
    using assms(1,2) p by (simp add: chat_try_def)
  then have block: "chat_block ev inp available_models w =
          (w\<lparr>session := (session w)\<lparr>messages :=
                 Some (ms @ [\<lparr>role = ''user'', content = q\<rparr>])\<rparr>,
             calls := calls w @ cs,
             ui := ui w @ [StMarkdown q, StError (str_exn e)]\<rparr>, Completed)"
    using assms(3,4,5) by (simp add: chat_block_def selected_model_def)
  have once: "length (filter is_similarity_query
                 (map fst (fst (process_question ev q h (model_select inp))))) = 1"
    by (simp add: process_question_def split: sum.splits)
  have gen: "length (filter is_generation
                 (map fst (fst (process_question ev q h (model_select inp))))) \<le> 1"
    by (simp add: process_question_def split: sum.splits)
  from block p once gen show ?thesis by simp
qed

theorem chat_block_answer_failure_witness:
  "vector_db (session chatted_world) = Some (Some myrag)
   \<and> snd (process_question retrieval_down_env ''What is X?'' myrag ''llama3'') =
       Inl (LibraryError ''connection refused'')
   \<and> chat_block retrieval_down_env (ask ''What is X?'') [''llama3''] chatted_world =
       (chatted_world\<lparr>session := (session chatted_world)\<lparr>messages :=
            Some ([\<lparr>role = ''user'', content = ''Hallo''\<rparr>,
                   \<lparr>role = ''assistant'', content = ''Antwort''\<rparr>,
                   \<lparr>role = ''user'', content = ''What is X?''\<rparr>])\<rparr>,
          calls := calls chatted_world @ [(SimilarityQuery myrag ''What is X?'' 3, False)],
          ui := [StMarkdown ''What is X?'', StError ''connection refused'']\<rparr>,
        Completed)"
proof -
  have a: "vector_db (session chatted_world) = Some (Some myrag)"
    by (simp add: chatted_world_def)
  have b: "messages (session chatted_world) =
             Some [\<lparr>role = ''user'', content = ''Hallo''\<rparr>,
                   \<lparr>role = ''assistant'', content = ''Antwort''\<rparr>]"
    by (simp add: chatted_world_def)
  have c: "chat_input (ask ''What is X?'') = Some ''What is X?''"
    by (simp add: ask_def)
  have d: "''What is X?'' \<noteq> []"
    by simp
  have m: "[''llama3''] \<noteq> []"
    by simp
  have s: "model_select (ask ''What is X?'') = ''llama3''"
    by (simp add: ask_def no_action_def)
  have pq: "process_question retrieval_down_env ''What is X?'' myrag ''llama3'' =
              ([(SimilarityQuery myrag ''What is X?'' 3, False)],
               Inl (LibraryError ''connection refused''))"
    by (simp add: process_question_def retrieval_down_env_def)
  then have f: "snd (process_question retrieval_down_env ''What is X?'' myrag
                  (model_select (ask ''What is X?''))) = Inl (LibraryError ''connection refused'')"
    by (simp add: s)
  have u: "ui chatted_world = []"
    by (simp add: chatted_world_def)
  from chat_block_answer_failure [OF a b c d m f] a pq s u
  show ?thesis by simp
qed

section \<open>An empty corpus\<close>

text \<open>
  Claim C7, as the script has it. For a directory in which the glob matches no file,
  \<open>load_documents\<close> returns the empty list and raises nothing. The caller tests the
  list: \<open>main\<close> shows the message \<^verbatim>\<open>No website data found.\<close>, builds no index and
  goes on with the run.
\<close>

theorem load_documents_no_match:
  assumes "glob_files ev path ''./*.md'' = Inr []"
  shows "load_documents ev path = Inr []
         \<and> (vector_db (session w) = Some None \<and> korpora_list \<noteq> []
              \<and> path = korpora_path @ korpus_select inp \<longrightarrow>
            build_index ev inp korpora_list available_models w =
              (w\<lparr>ui := ui w @ [StError ''No website data found.'']\<rparr>, Completed))"
proof -
  from assms have empty: "load_documents ev path = Inr []"
    by (simp add: load_documents_def)
  then have "build_index ev inp korpora_list available_models w =
      (w\<lparr>ui := ui w @ [StError ''No website data found.'']\<rparr>, Completed)"
    if "vector_db (session w) = Some None" and "korpora_list \<noteq> []"
      and "path = korpora_path @ korpus_select inp"
    using that by (simp add: build_index_def selected_korpus_def)
  with empty show ?thesis by blast
qed

theorem load_documents_no_match_witness:
  "glob_files empty_corpus_env (korpora_path @ ''ub'') ''./*.md'' = Inr []
   \<and> load_documents empty_corpus_env (korpora_path @ ''ub'') = Inr []
   \<and> vector_db (session waiting_world) = Some None
   \<and> build_index empty_corpus_env no_action [''ub''] [''llama3''] waiting_world =
       (waiting_world\<lparr>ui := ui waiting_world @ [StError ''No website data found.'']\<rparr>,
        Completed)"
proof -
  have g: "glob_files empty_corpus_env (korpora_path @ ''ub'') ''./*.md'' = Inr []"
    by (simp add: empty_corpus_env_def)
  have v: "vector_db (session waiting_world) = Some None"
    by (simp add: example_defs init_session_state_def)
  have k: "korpus_select no_action = ''ub''"
    by (simp add: no_action_def)
  from load_documents_no_match [OF g, of waiting_world "[''ub'']" no_action "[''llama3'']"] g v k
  show ?thesis by simp
qed

text \<open>
  Claim C7 as stated fails: on a directory with no matching file the load does not
  fail, it returns the empty list.
\<close>

theorem load_documents_empty_counterexample:
  "glob_files empty_corpus_env (korpora_path @ ''ub'') ''./*.md'' = Inr []
   \<and> load_documents empty_corpus_env (korpora_path @ ''ub'') = Inr []
   \<and> \<not> isl (load_documents empty_corpus_env (korpora_path @ ''ub''))"
  by (simp add: load_documents_def empty_corpus_env_def)

section \<open>One index per session\<close>

text \<open>
  Claim C8. At the end of every run of a session the number of live indexes, builds
  that returned less deletions that returned, is one when the session holds a handle
  and zero otherwise. A run builds at most once, and not at all when the session
  already has an index. A session with an index loses it only in a run where the
  reload button was pressed and the collection was deleted.
\<close>

theorem one_live_index:
  "live_indexes (calls (run_session rs initial_world)) =
     (if has_index (session (run_session rs initial_world)) then 1 else 0)
   \<and> builds (run_calls ev inp w) \<le> 1
   \<and> (has_index (session w) \<longrightarrow> builds (run_calls ev inp w) = 0)
   \<and> (has_index (session w) \<and> \<not> has_index (session (fst (main ev inp w))) \<longrightarrow>
        delete_button inp \<and> snd (main ev inp w) = Rerun
        \<and> (\<exists>h. vector_db (session w) = Some (Some h)
              \<and> run_calls ev inp w = [(DeleteCollection h, True)]))"
proof -
  have "live_ok (run_session rs initial_world)"
    using live_ok_initial by (rule live_ok_run_session)
  then have count: "live_indexes (calls (run_session rs initial_world)) =
      (if has_index (session (run_session rs initial_world)) then 1 else 0)"
    by (simp add: live_ok_def)
  have lost: "delete_button inp \<and> snd (main ev inp w) = Rerun
        \<and> (\<exists>h. vector_db (session w) = Some (Some h)
              \<and> run_calls ev inp w = [(DeleteCollection h, True)])"
    if "has_index (session w)" and "\<not> has_index (session (fst (main ev inp w)))"
  proof -
    from that(1) obtain h where h: "vector_db (session w) = Some (Some h)"
      by (auto split: option.splits)
    from that(2) have "vector_db (session (fst (main ev inp w))) \<noteq> Some (Some h)"
      by auto
    with main_with_index [OF h, of ev inp] h show ?thesis
      by blast
  qed
  from count run_calls_props [of ev inp w] lost show ?thesis
    by blast
qed

theorem one_live_index_witness:
  "has_index (session chatted_world)
   \<and> \<not> has_index (session (fst (main one_file_env press_reload chatted_world)))
   \<and> delete_button press_reload
   \<and> snd (main one_file_env press_reload chatted_world) = Rerun
   \<and> builds (run_calls one_file_env press_reload chatted_world) = 0
   \<and> has_index (session (run_session [(one_file_env, no_action)] initial_world))
   \<and> live_indexes (calls (run_session [(one_file_env, no_action)] initial_world)) = 1"
proof -
  have a: "has_index (session chatted_world)"
    by (simp add: chatted_world_def)
  have b: "\<not> has_index (session (fst (main one_file_env press_reload chatted_world)))"
    by (simp add: script_defs example_defs)
  have c: "has_index (session (run_session [(one_file_env, no_action)] initial_world))"
    by (simp add: script_defs example_defs)
  from a b c
    one_live_index [of "[(one_file_env, no_action)]" one_file_env press_reload chatted_world]
  show ?thesis by simp
qed

section \<open>The collection name\<close>

text \<open>
  Claim C10. Whatever the session state, the corpus and the models selected, every
  build a run makes is under the collection name \<^verbatim>\<open>myRAG\<close>. In a session started
  fresh on any vector store, every build in the log and the handle the session holds
  name \<^verbatim>\<open>myRAG\<close>; so the handles of any two sessions name the same collection.
\<close>

theorem collection_name_fixed:
  "list_all (built_under ''myRAG'') (run_calls ev inp w)
   \<and> list_all (built_under ''myRAG'') (calls (run_session rs (session_on st)))
   \<and> (vector_db (session (run_session rs (session_on st))) = Some (Some h) \<longrightarrow>
        collection_name h = ''myRAG'')
   \<and> (vector_db (session (run_session rs (session_on st))) = Some (Some h)
        \<and> vector_db (session (run_session rs' (session_on st'))) = Some (Some h') \<longrightarrow>
        collection_name h = collection_name h')"
proof -
  have named: "collection_name k = ''myRAG''"
    if "vector_db (session (run_session xs (session_on s))) = Some (Some k)" for xs s k
    using handle_named_run_session [OF handle_named_session_on, of xs s] that
    by (simp add: handle_named_def)
  have log: "list_all (built_under ''myRAG'') (calls (run_session rs (session_on st)))"
    by (rule named_run_session) (simp add: session_on_def)
  from run_calls_props [of ev inp w] log named show ?thesis
    by (metis (no_types))
qed

theorem collection_name_fixed_witness:
  "vector_db (session (run_session [(one_file_env, no_action)] (session_on Map.empty))) =
     Some (Some myrag)
   \<and> vector_db (session (run_session [(one_file_env, ask ''What is X?'')]
        (session_on [''myRAG'' \<mapsto> [intro_doc]]))) = Some (Some myrag)
   \<and> collection_name myrag = ''myRAG''
   \<and> list_all (built_under ''myRAG'')
       (calls (run_session [(one_file_env, no_action)] (session_on Map.empty)))
   \<and> calls (run_session [(one_file_env, no_action)] (session_on Map.empty)) =
       [(FromDocuments [\<lparr>page_content = ''Hello world.'', metadata = []\<rparr>] ''llama3'' ''myRAG'',
         True)]"
proof -
  have a: "vector_db (session (run_session [(one_file_env, no_action)] (session_on Map.empty))) =
     Some (Some myrag)"
    by (simp add: script_defs example_defs)
  have b: "vector_db (session (run_session [(one_file_env, ask ''What is X?'')]
        (session_on [''myRAG'' \<mapsto> [intro_doc]]))) = Some (Some myrag)"
    by (simp add: script_defs example_defs)
  have c: "calls (run_session [(one_file_env, no_action)] (session_on Map.empty)) =
       [(FromDocuments [\<lparr>page_content = ''Hello world.'', metadata = []\<rparr>] ''llama3'' ''myRAG'',
         True)]"
    by (simp add: script_defs example_defs)
  from a b c
    collection_name_fixed [of one_file_env no_action initial_world
      "[(one_file_env, no_action)]" Map.empty myrag
      "[(one_file_env, ask ''What is X?'')]" "[''myRAG'' \<mapsto> [intro_doc]]" myrag]
  show ?thesis by simp
qed

section \<open>Reloading with nothing to delete\<close>

text \<open>
  Claim C9. Called without a handle, \<open>delete_vector_db\<close> raises nothing: it shows
  an error message and returns, and the session state, the vector store and the log
  are what they were.
\<close>

theorem delete_vector_db_without_handle:
  "delete_vector_db ev None w =
     (w\<lparr>ui := ui w @ [StError ''No vector database found to delete.'']\<rparr>, Completed)
   \<and> session (fst (delete_vector_db ev None w)) = session w
   \<and> store (fst (delete_vector_db ev None w)) = store w
   \<and> calls (fst (delete_vector_db ev None w)) = calls w"
  by (simp add: delete_vector_db_def)

section \<open>Splitting a document without headers\<close>

text \<open>
  Claim C5, for the splitter modelled from the spec. A document none of whose lines is
  a header line is split into exactly one chunk; its content is the whole content of
  the document and its metadata is empty, so that none of the keys \<^verbatim>\<open>Header 1\<close> to
  \<^verbatim>\<open>Header 4\<close> is in it.
\<close>

theorem split_without_headers:
  assumes "doc_headers headers_to_split_on (page_content doc) = []"
  shows "split_documents md_split_text [doc] = [\<lparr>page_content = page_content doc, metadata = []\<rparr>]
         \<and> (\<forall>c \<in> set (split_documents md_split_text [doc]).
              \<forall>key \<in> set [''Header 1'', ''Header 2'', ''Header 3'', ''Header 4''].
                map_of (metadata c) key = None)"
proof -
  let ?ls = "split_lines (page_content doc)"
  from assms have plain: "\<forall>l \<in> set ?ls. header_line headers_to_split_on l = None"
    by (simp add: doc_headers_def map_filter_Nil_iff)
  then have secs: "sections headers_to_split_on [] [] ?ls = [([], ?ls)]"
    using sections_plain [of ?ls headers_to_split_on "[]" "[]"] by simp
  have "\<not> starts_with_header headers_to_split_on ?ls"
    using plain by (cases ?ls) (simp_all add: starts_with_header_def)
  with secs have "md_split_text headers_to_split_on (page_content doc) =
      [\<lparr>page_content = page_content doc, metadata = []\<rparr>]"
    by (simp add: md_split_text_def chunk_of_def join_split_lines)
  then show ?thesis
    by (simp add: split_documents_single)
qed

theorem split_without_headers_witness:
  "doc_headers headers_to_split_on (page_content plain_doc) = []
   \<and> split_documents md_split_text [plain_doc] =
       [\<lparr>page_content = ''Hello world.\<newline>More text.'', metadata = []\<rparr>]"
proof -
  have h: "doc_headers headers_to_split_on (page_content plain_doc) = []"
    by (simp add: plain_doc_def splitter_defs)
  from h split_without_headers [OF h] show ?thesis
    by (simp add: plain_doc_def)
qed

section \<open>Splitting a document at its headers\<close>

text \<open>
  Claim C6, for the splitter modelled from the spec. A document with \<open>N\<close> header
  lines is split into \<open>N\<close> chunks, and one more when its first line is not a header
  line. The chunk of the header line number \<open>j\<close> has, under the key of every level of
  the table, the text of the nearest enclosing header of that level among the header
  lines up to that one, and no such key when there is none; the chunk before the first
  header has no metadata. The file of the scenario gives the two chunks of the
  scenario.
\<close>

theorem split_with_headers:
  "length (split_documents md_split_text [doc]) =
     length (doc_headers headers_to_split_on (page_content doc))
       + preamble_count headers_to_split_on (page_content doc)
   \<and> (\<forall>j < length (doc_headers headers_to_split_on (page_content doc)).
        \<forall>(l, key) \<in> set header_levels.
          map_of (metadata (split_documents md_split_text [doc]
                     ! (preamble_count headers_to_split_on (page_content doc) + j))) key =
            enclosing l (take (Suc j) (doc_headers headers_to_split_on (page_content doc))))
   \<and> (preamble_count headers_to_split_on (page_content doc) = 1 \<longrightarrow>
        metadata (hd (split_documents md_split_text [doc])) = [])
   \<and> split_documents md_split_text [intro_md_doc] =
       [\<lparr>page_content = ''Hello world.'', metadata = [(''Header 1'', ''Intro'')]\<rparr>,
        \<lparr>page_content = ''More text.'',
         metadata = [(''Header 1'', ''Intro''), (''Header 2'', ''Details'')]\<rparr>]"
proof -
  let ?T = headers_to_split_on
  let ?text = "page_content doc"
  let ?hs = "doc_headers ?T ?text"
  let ?secs = "sections ?T [] [] (split_lines ?text)"
  have len: "length ?secs = Suc (length ?hs)"
    by (simp add: length_sections doc_headers_def)
  then have count: "length (split_documents md_split_text [doc]) =
      length ?hs + preamble_count ?T ?text"
    by (simp add: split_documents_single md_split_text_def preamble_count_def Let_def)
  have meta: "map_of (metadata (split_documents md_split_text [doc]
                     ! (preamble_count ?T ?text + j))) key = enclosing l (take (Suc j) ?hs)"
    if "j < length ?hs" and "(l, key) \<in> set header_levels" for j l key
  proof -
    let ?c = "foldl (\<lambda>c h. enter h c) [] (take (Suc j) ?hs)"
    have "set ?c \<subseteq> set ?hs"
      using set_chain [of "[]" "take (Suc j) ?hs"] set_take_subset [of "Suc j" ?hs] by auto
    then have "keyed h" if "h \<in> set ?c" for h
      using that doc_headers_keyed by blast
    then have "map_of (map snd ?c) key = map_option (\<lambda>h. snd (snd h)) (level_find l ?c)"
      using that(2) by (rule metadata_lookup)
    then show ?thesis
      using header_chunk_nth [OF that(1)]
      by (simp add: split_documents_single level_find_chain enclosing_title)
  qed
  have first: "metadata (hd (split_documents md_split_text [doc])) = []"
    if "preamble_count ?T ?text = 1"
  proof -
    from that have "\<not> starts_with_header ?T (split_lines ?text)"
      by (simp add: preamble_count_def split: if_splits)
    moreover have "fst (hd ?secs) = []"
      by (rule sections_first)
    moreover have "?secs \<noteq> []"
      using len by auto
    ultimately show ?thesis
      by (simp add: split_documents_single md_split_text_def Let_def hd_map chunk_of_def)
  qed
  have example: "split_documents md_split_text [intro_md_doc] =
       [\<lparr>page_content = ''Hello world.'', metadata = [(''Header 1'', ''Intro'')]\<rparr>,
        \<lparr>page_content = ''More text.'',
         metadata = [(''Header 1'', ''Intro''), (''Header 2'', ''Details'')]\<rparr>]"
    by (simp add: split_documents_single intro_md_doc_def intro_md_def splitter_defs)
  from count meta first example show ?thesis
    by blast
qed

theorem split_with_headers_witness:
  "(1::nat) < length (doc_headers headers_to_split_on (page_content intro_md_doc))
   \<and> (2, ''Header 2'') \<in> set header_levels
   \<and> length (split_documents md_split_text [intro_md_doc]) = 2
   \<and> map_of (metadata (split_documents md_split_text [intro_md_doc] ! 1)) ''Header 2'' =
       Some ''Details''
   \<and> map_of (metadata (split_documents md_split_text [intro_md_doc] ! 0)) ''Header 2'' = None"
proof -
  have hs: "doc_headers headers_to_split_on (page_content intro_md_doc) =
      [(1, ''Header 1'', ''Intro''), (2, ''Header 2'', ''Details'')]"
    by (simp add: intro_md_doc_def intro_md_def splitter_defs)
  have pc: "preamble_count headers_to_split_on (page_content intro_md_doc) = 0"
    by (simp add: intro_md_doc_def intro_md_def splitter_defs)
  have lv: "(2, ''Header 2'') \<in> set header_levels"
    by (simp add: header_levels_def headers_to_split_on_def)
  have e1: "enclosing 2 [(1, ''Header 1'', ''Intro''), (2, ''Header 2'', ''Details'')] =
      Some ''Details''"
    by (simp add: enclosing_def)
  have e0: "enclosing 2 [(1, ''Header 1'', ''Intro'')] = None"
    by (simp add: enclosing_def)
  from split_with_headers [of intro_md_doc] hs pc lv e1 e0 show ?thesis
    by (auto simp: numeral_2_eq_2)
qed

end
